theory Spec2Isabelle
  imports Complex_Main "HOL-Library.List_Lexorder"
begin

section \<open>The REINFORCE trainer of \<^verbatim>\<open>nemo_aligner/algorithms/reinforce_ifeval.py\<close>\<close>

text \<open>
  The development embeds the pure parts of \<^verbatim>\<open>ReinforceIFEvalTrainer\<close>. Tensors of
  floating-point values are lists of reals (rounding of the arithmetic is not modelled);
  a result that the tensor library computes by a division by zero is \<open>None\<close>. Python
  integers are \<open>int\<close>. An exception is a value of type \<open>error\<close>.
\<close>

datatype error = AssertionError | KeyError string | ZeroDivisionError | IndexError

subsection \<open>Training state, snapshot and restore\<close>

text \<open>
  The fields of the trainer that \<^verbatim>\<open>state_dict\<close>, \<^verbatim>\<open>load_state_dict\<close>,
  \<^verbatim>\<open>set_max_steps\<close> and \<^verbatim>\<open>epoch\<close> read or write. \<open>cfg_max_steps\<close> is the
  optional key \<^verbatim>\<open>max_steps\<close> of the configuration (\<open>None\<close>: the key is absent).
\<close>

record trainer =
  step :: int
  consumed_samples :: int
  reinforce_optimization_step :: int
  num_steps_per_epoch :: int
  cfg_max_epochs :: int
  cfg_max_steps :: "int option"
  max_steps :: int

text \<open>\<^verbatim>\<open>return self.step // self.num_steps_per_epoch\<close>: floor division, which raises on 0.\<close>

definition epoch :: "trainer \<Rightarrow> error + int" where
  "epoch self =
     (if num_steps_per_epoch self = 0 then Inl ZeroDivisionError
      else Inr (step self div num_steps_per_epoch self))"

text \<open>The dictionary that \<^verbatim>\<open>state_dict\<close> returns, in the order its keys are written.\<close>

definition state_dict :: "trainer \<Rightarrow> error + (string \<times> int) list" where
  "state_dict self =
     (case epoch self of
        Inl e \<Rightarrow> Inl e
      | Inr ep \<Rightarrow>
          Inr [(''step'', step self),
               (''consumed_samples'', consumed_samples self),
               (''epoch'', ep),
               (''ppo_optimization_step'', reinforce_optimization_step self)])"

text \<open>
  \<^verbatim>\<open>self.max_steps = self.num_steps_per_epoch * self.cfg.max_epochs\<close>, then the cap
  \<^verbatim>\<open>if (max_steps := self.cfg.get("max_steps", -1)) >= 0\<close>.
\<close>

definition set_max_steps :: "trainer \<Rightarrow> trainer" where
  "set_max_steps self =
     (let self1 = self\<lparr>max_steps := num_steps_per_epoch self * cfg_max_epochs self\<rparr>;
          cap = (case cfg_max_steps self of None \<Rightarrow> - 1 | Some m \<Rightarrow> m)
      in if cap \<ge> 0 then self1\<lparr>max_steps := min (max_steps self1) cap\<rparr> else self1)"

text \<open>
  \<^verbatim>\<open>torch.tensor(loaded_values, dtype=torch.float32)\<close> rounds each integer to the
  nearest value with a 24-bit significand, ties to even. \<open>bitlen\<close> is the number of
  binary digits. (Magnitudes beyond the range of the format are not modelled.)
\<close>

fun bitlen :: "nat \<Rightarrow> nat" where
  "bitlen n = (if n = 0 then 0 else Suc (bitlen (n div 2)))"

declare bitlen.simps [simp del]

definition float32 :: "int \<Rightarrow> real" where
  "float32 n =
     (let m = nat \<bar>n\<bar>;
          e = bitlen m - 24;
          q = m div 2 ^ e;
          r = m mod 2 ^ e;
          q' = (if 2 * r > 2 ^ e \<or> (2 * r = 2 ^ e \<and> odd q) then q + 1 else q)
      in of_int (sgn n * int (q' * 2 ^ e)))"

text \<open>
  \<^verbatim>\<open>torch.distributed.broadcast(to_broadcast, 0)\<close>: rank 0 keeps its own tensor, every
  other rank receives \<open>sent\<close>, the tensor of rank 0.
\<close>

definition broadcast :: "nat \<Rightarrow> real list \<Rightarrow> real list \<Rightarrow> real list" where
  "broadcast rank sent own = (if rank = 0 then own else sent)"

text \<open>
  \<^verbatim>\<open>load_state_dict\<close> on the worker \<open>rank\<close>. It returns the outcome of the call
  (\<open>Inl\<close>: the exception raised) and the trainer object as the call leaves it: the
  three counters are assigned before the assertion is evaluated, and
  \<^verbatim>\<open>set_max_steps\<close> runs only after it has passed.
\<close>

definition load_state_dict ::
  "nat \<Rightarrow> real list \<Rightarrow> trainer \<Rightarrow> (string \<times> int) list \<Rightarrow> (error + unit) \<times> trainer" where
  "load_state_dict rank sent self sd =
     (case map_of sd ''step'' of
        None \<Rightarrow> (Inl (KeyError ''step''), self)
      | Some st \<Rightarrow>
          let self1 = self\<lparr>step := st\<rparr> in
          (case map_of sd ''consumed_samples'' of
             None \<Rightarrow> (Inl (KeyError ''consumed_samples''), self1)
           | Some cs \<Rightarrow>
               let self2 = self1\<lparr>consumed_samples := cs\<rparr> in
               (case map_of sd ''ppo_optimization_step'' of
                  None \<Rightarrow> (Inl (KeyError ''ppo_optimization_step''), self2)
                | Some os \<Rightarrow>
                    let self3 = self2\<lparr>reinforce_optimization_step := os\<rparr>;
                        loaded_values = [step self3, consumed_samples self3,
                                         reinforce_optimization_step self3];
                        to_broadcast = broadcast rank sent (map float32 loaded_values)
                    in if map real_of_int loaded_values = to_broadcast
                       then (Inr (), set_max_steps self3)
                       else (Inl AssertionError, self3))))"

subsection \<open>Rollout records\<close>

text \<open>
  A rollout record is a dictionary of tensors with a common leading (batch) dimension;
  the fields are the keys that the functions below read or write. A per-sample scalar
  tensor (shape \<open>B \<times> 1\<close>) is a list of \<open>B\<close> values, the token tensor a list of rows.
\<close>

record rollout_batch =
  prompt_tokens :: "int list list"
  prompt_lengths :: "int list"
  response_lengths :: "int list"
  response_tokens :: "int list list"
  rewards :: "real list"
  rm_rewards :: "real list"
  ifeval_rewards :: "real list"
  init_policy_kl :: "real list"
  baseline :: "real option list"

subsection \<open>Reward blending in \<^verbatim>\<open>_run_inference\<close>\<close>

text \<open>
  Training path:
  \<^verbatim>\<open>rewards = rm_rewards * self.cfg.rm_multiplier + ifeval_mask * ifeval_rewards * self.cfg.ifeval_multiplier\<close>.
\<close>

definition training_rewards ::
  "real \<Rightarrow> real \<Rightarrow> real list \<Rightarrow> real list \<Rightarrow> real list \<Rightarrow> real list" where
  "training_rewards rm_multiplier ifeval_multiplier rm ifeval_mask ifeval =
     map2 (+) (map (\<lambda>x. x * rm_multiplier) rm)
              (map (\<lambda>x. x * ifeval_multiplier) (map2 (*) ifeval_mask ifeval))"

text \<open>
  Validation path:
  \<^verbatim>\<open>rewards = self.cfg.ifeval_multiplier * ifeval_mask * ifeval_rewards + (1 - ifeval_mask) * rm_rewards\<close>.
\<close>

definition validation_rewards ::
  "real \<Rightarrow> real list \<Rightarrow> real list \<Rightarrow> real list \<Rightarrow> real list" where
  "validation_rewards ifeval_multiplier rm ifeval_mask ifeval =
     map2 (+) (map2 (*) (map (\<lambda>m. ifeval_multiplier * m) ifeval_mask) ifeval)
              (map2 (*) (map (\<lambda>m. 1 - m) ifeval_mask) rm)"

subsection \<open>The per-sample KL penalty in \<^verbatim>\<open>_run_inference\<close>\<close>

text \<open>\<^verbatim>\<open>.mean(-1)\<close> of one row; the mean of an empty row is not a number.\<close>

definition tensor_mean :: "real list \<Rightarrow> real option" where
  "tensor_mean xs = (if xs = [] then None else Some (sum_list xs / real (length xs)))"

text \<open>
  \<^verbatim>\<open>(init_policy_kl * mask).mean(-1).unsqueeze(-1)\<close>. The per-token values are the
  result of \<^verbatim>\<open>calculate_kl_penalty\<close> and the mask \<open>msk\<close> the result of \<^verbatim>\<open>create_mask\<close>, both
  taken as given; \<open>None\<close> for the per-token values is the scalar \<^verbatim>\<open>torch.tensor(0)\<close> of
  the branch without a KL penalty, which the product broadcasts over the mask.
\<close>

definition masked_init_policy_kl ::
  "real list list option \<Rightarrow> real list list \<Rightarrow> real option list" where
  "masked_init_policy_kl kl msk =
     (case kl of
        None \<Rightarrow> map (\<lambda>m. tensor_mean (map (\<lambda>w. 0 * w) m)) msk
      | Some per_token \<Rightarrow> map2 (\<lambda>k m. tensor_mean (map2 (*) k m)) per_token msk)"

text \<open>
  The masked mean as the specification words it: the mean of the per-token values over
  the positions the mask keeps, which alone are counted.
\<close>

definition spec_masked_mean :: "real list \<Rightarrow> real list \<Rightarrow> real option" where
  "spec_masked_mean k m =
     (let valid = filter (\<lambda>(x, w). w \<noteq> 0) (zip k m)
      in if valid = [] then None else Some (sum_list (map fst valid) / real (length valid)))"

subsection \<open>\<^verbatim>\<open>get_rloo_baseline\<close>\<close>

text \<open>\<^verbatim>\<open>torch.unique(batch["prompt_tokens"], dim=0)\<close>: the distinct rows, sorted.\<close>

definition unique_rows :: "int list list \<Rightarrow> int list list" where
  "unique_rows ps = sort (remdups ps)"

text \<open>\<^verbatim>\<open>1 - torch.eye(n)\<close>.\<close>

definition rloo_mat :: "nat \<Rightarrow> real list list" where
  "rloo_mat n = map (\<lambda>a. map (\<lambda>b. 1 - (if a = b then 1 else 0)) [0..<n]) [0..<n]"

text \<open>\<^verbatim>\<open>torch.matmul\<close> of a matrix and a column.\<close>

definition matmul :: "real list list \<Rightarrow> real list \<Rightarrow> real list" where
  "matmul m v = map (\<lambda>row. sum_list (map2 (*) row v)) m"

text \<open>
  Division of a tensor element by a Python integer. The tensor library does not raise
  on a zero divisor: the element becomes not-a-number or infinite, here \<open>None\<close>.
\<close>

definition tensor_div :: "real \<Rightarrow> int \<Rightarrow> real option" where
  "tensor_div x d = (if d = 0 then None else Some (x / real_of_int d))"

text \<open>\<^verbatim>\<open>t[idx] = vs\<close>: the assignment through an index list.\<close>

definition index_put :: "'a list \<Rightarrow> nat list \<Rightarrow> 'a list \<Rightarrow> 'a list" where
  "index_put xs idx vs = fold (\<lambda>(k, v) ys. ys[k := v]) (zip idx vs) xs"

text \<open>
  \<^verbatim>\<open>torch.arange(len(batch["prompt_tokens"]))[(batch["prompt_tokens"] == u).all(1)]\<close>:
  the indices of the samples whose whole prompt row equals \<open>u\<close>, in increasing order.
\<close>

definition prompt_idx :: "int list list \<Rightarrow> int list \<Rightarrow> nat list" where
  "prompt_idx prompts u = filter (\<lambda>k. prompts ! k = u) [0..<length prompts]"

text \<open>The body of the loop over the unique prompts, for the unique prompt \<open>u\<close>.\<close>

definition rloo_group ::
  "int list list \<Rightarrow> real list \<Rightarrow> int list \<Rightarrow> real option list \<Rightarrow> real option list" where
  "rloo_group prompts regularized_reward u bl =
     (let idx = prompt_idx prompts u;
          rloo_m = rloo_mat (length idx);
          rloo = map (\<lambda>x. tensor_div x (int (length idx) - 1))
                   (matmul rloo_m (map (\<lambda>k. regularized_reward ! k) idx))
      in index_put bl idx rloo)"

text \<open>
  \<^verbatim>\<open>get_rloo_baseline\<close>; the first argument is \<^verbatim>\<open>self.cfg.initial_policy_kl_penalty\<close>.
  The baseline starts as \<^verbatim>\<open>torch.zeros_like(batch["rewards"])\<close>.
\<close>

definition get_rloo_baseline :: "real \<Rightarrow> rollout_batch \<Rightarrow> rollout_batch" where
  "get_rloo_baseline initial_policy_kl_penalty batch =
     (let unique_prompts = unique_rows (prompt_tokens batch);
          regularized_reward =
            map2 (\<lambda>r k. r - initial_policy_kl_penalty * k) (rewards batch) (init_policy_kl batch);
          zeros = map (\<lambda>_. Some 0) (rewards batch)
      in batch\<lparr>baseline :=
           fold (rloo_group (prompt_tokens batch) regularized_reward) unique_prompts zeros\<rparr>)"

subsection \<open>\<^verbatim>\<open>compute_global_rollout_metrics\<close>\<close>

text \<open>A value of the logged example: a number or a decoded text.\<close>

datatype cell = Num real | Text string

text \<open>A Python slice \<^verbatim>\<open>xs[lo:hi]\<close>; a negative bound counts from the end.\<close>

definition slice_bound :: "nat \<Rightarrow> int \<Rightarrow> nat" where
  "slice_bound n i = (if i < 0 then nat (max 0 (int n + i)) else min n (nat i))"

definition py_slice :: "'a list \<Rightarrow> int \<Rightarrow> int \<Rightarrow> 'a list" where
  "py_slice xs lo hi = drop (slice_bound (length xs) lo) (take (slice_bound (length xs) hi) xs)"

text \<open>
  The branch \<^verbatim>\<open>if i == 0\<close>: the six reads of element 0 (each raises on an empty
  tensor) and the five entries of \<^verbatim>\<open>table\<close>, in the order they are written. The
  tokenizer's \<^verbatim>\<open>ids_to_text\<close> is a parameter.
\<close>

fun table_logging ::
  "(int list \<Rightarrow> string) \<Rightarrow> real list \<Rightarrow> real list \<Rightarrow> real list \<Rightarrow> int list \<Rightarrow> int list \<Rightarrow>
   int list list \<Rightarrow> error + (string \<times> cell) list" where
  "table_logging ids_to_text (reward # _) (rm_reward # _) (ifeval_reward # _)
       (prompt_length # _) (response_length # _) (response_token # _) =
     Inr [(''reward'', Num rm_reward),
          (''rm_reward'', Num rm_reward),
          (''ifeval_reward'', Num ifeval_reward),
          (''prompt'', Text (ids_to_text (py_slice response_token 0 prompt_length))),
          (''response'',
             Text (ids_to_text (py_slice response_token prompt_length response_length)))]"
| "table_logging _ _ _ _ _ _ _ = Inl IndexError"

text \<open>
  One pass of the loop body over a record: the five sums and the sample count, in the
  order of \<^verbatim>\<open>tensor_to_accumulate\<close> (\<^verbatim>\<open>response_lengths\<close>, \<^verbatim>\<open>prompt_lengths\<close>,
  \<^verbatim>\<open>rewards\<close>, \<^verbatim>\<open>rm_rewards\<close>, \<^verbatim>\<open>ifeval_rewards\<close>, \<^verbatim>\<open>num_samples\<close>).
\<close>

definition accumulate ::
  "rollout_batch \<Rightarrow> int \<times> int \<times> real \<times> real \<times> real \<times> nat \<Rightarrow> int \<times> int \<times> real \<times> real \<times> real \<times> nat" where
  "accumulate rb =
     (\<lambda>(m_response_lengths, m_prompt_lengths, m_rewards, m_rm_rewards, m_ifeval_rewards,
         num_samples).
        (m_response_lengths + sum_list (map2 (-) (response_lengths rb) (prompt_lengths rb)),
         m_prompt_lengths + sum_list (prompt_lengths rb),
         m_rewards + sum_list (rm_rewards rb),
         m_rm_rewards + sum_list (rm_rewards rb),
         m_ifeval_rewards + sum_list (ifeval_rewards rb),
         num_samples + length (prompt_lengths rb)))"

definition tensor_to_accumulate :: "rollout_batch list \<Rightarrow> real list" where
  "tensor_to_accumulate rollout_batches =
     (case fold accumulate rollout_batches (0, 0, 0, 0, 0, 0) of
        (m_response_lengths, m_prompt_lengths, m_rewards, m_rm_rewards, m_ifeval_rewards,
         num_samples) \<Rightarrow>
          [real_of_int m_response_lengths, real_of_int m_prompt_lengths, m_rewards,
           m_rm_rewards, m_ifeval_rewards, real num_samples])"

text \<open>
  \<^verbatim>\<open>torch.distributed.all_reduce\<close> with the default sum: the worker's tensor plus,
  elementwise, the tensors \<open>peers\<close> of the other workers of the data-parallel group.
\<close>

definition all_reduce :: "real list \<Rightarrow> real list list \<Rightarrow> real list" where
  "all_reduce own peers = fold (map2 (+)) peers own"

text \<open>
  \<^verbatim>\<open>compute_global_rollout_metrics\<close> on one worker: the table of its first record (empty
  without a record) and the five global means.
\<close>

definition compute_global_rollout_metrics ::
  "(int list \<Rightarrow> string) \<Rightarrow> real list list \<Rightarrow> rollout_batch list \<Rightarrow>
   error + (string \<times> cell) list \<times> (string \<times> real) list" where
  "compute_global_rollout_metrics ids_to_text peers rollout_batches =
     (case (case rollout_batches of
              [] \<Rightarrow> Inr []
            | rb # _ \<Rightarrow>
                table_logging ids_to_text (rewards rb) (rm_rewards rb) (ifeval_rewards rb)
                  (prompt_lengths rb) (response_lengths rb) (response_tokens rb)) of
        Inl e \<Rightarrow> Inl e
      | Inr table \<Rightarrow>
          let t = all_reduce (tensor_to_accumulate rollout_batches) peers;
              global_response_lengths = t ! 0;
              global_prompt_lengths = t ! 1;
              global_rewards = t ! 2;
              global_rm_rewards = t ! 3;
              global_ifeval_rewards = t ! 4;
              global_num_samples = t ! 5
          in Inr (table,
               [(''global_response_lengths_mean'',
                   global_response_lengths / (global_num_samples + 1 / 1000000)),
                (''global_prompt_lengths'',
                   global_prompt_lengths / (global_num_samples + 1 / 1000000)),
                (''global_rewards'', global_rewards / (global_num_samples + 1 / 1000000)),
                (''global_rm_rewards'', global_rm_rewards / (global_num_samples + 1 / 1000000)),
                (''global_ifeval_rewards'',
                   global_ifeval_rewards / (global_num_samples + 1 / 1000000))]))"

subsection \<open>The external calls of \<^verbatim>\<open>_run_inference\<close>, in order\<close>

text \<open>
  The calls that leave the trainer: \<^verbatim>\<open>self.model.infer\<close>,
  \<^verbatim>\<open>self.rm_critic.infer_rm_critic\<close> (which returns the future), \<^verbatim>\<open>future.result()\<close>
  (the join) and \<^verbatim>\<open>self.model.get_init_policy_logprobs\<close>.
\<close>

datatype event = Infer | InferRmCritic | FutureResult | GetInitPolicyLogprobs

text \<open>One round of \<^verbatim>\<open>for _ in range(self.generation_iter)\<close>, appended to the calls so far.\<close>

definition generation_round :: "event list \<Rightarrow> event list" where
  "generation_round calls = calls @ [Infer, InferRmCritic, FutureResult, GetInitPolicyLogprobs]"

text \<open>One microbatch of the validation path.\<close>

definition validation_round :: "event list \<Rightarrow> event list" where
  "validation_round calls = calls @ [Infer, InferRmCritic, FutureResult]"

text \<open>
  The calls of \<^verbatim>\<open>_run_inference\<close> over \<open>num_microbatches\<close> microbatches drawn from the
  data loader.
\<close>

definition run_inference_calls :: "nat \<Rightarrow> nat \<Rightarrow> bool \<Rightarrow> event list" where
  "run_inference_calls num_microbatches generation_iter is_validation =
     (if \<not> is_validation
      then ((generation_round ^^ generation_iter) ^^ num_microbatches) []
      else (validation_round ^^ num_microbatches) [])"

text \<open>The number of reward-critic requests issued and not yet joined after the calls.\<close>

definition outstanding :: "event list \<Rightarrow> int" where
  "outstanding calls = int (count_list calls InferRmCritic) - int (count_list calls FutureResult)"

section \<open>Properties\<close>

subsection \<open>The conversion to single precision\<close>

text \<open>Integers below \<open>2 ^ 24\<close> in magnitude survive the conversion; \<open>2 ^ 24 + 1\<close> does not.\<close>

lemma bitlen_le: "m < 2 ^ k \<Longrightarrow> bitlen m \<le> k"
proof (induction k arbitrary: m)
  case 0
  then show ?case by (simp add: bitlen.simps)
next
  case (Suc k)
  have "m div 2 < 2 ^ k" using Suc.prems by simp
  then have "bitlen (m div 2) \<le> k" by (rule Suc.IH)
  then show ?case by (subst bitlen.simps) simp
qed

lemma float32_exact: "\<bar>n\<bar> < 2 ^ 24 \<Longrightarrow> float32 n = real_of_int n"
proof -
  assume a: "\<bar>n\<bar> < 2 ^ 24"
  have "nat \<bar>n\<bar> < 2 ^ 24" using a by (simp add: nat_less_iff)
  then have "bitlen (nat \<bar>n\<bar>) - 24 = 0" using bitlen_le [of "nat \<bar>n\<bar>" 24] by simp
  moreover have "real_of_int (sgn n) * \<bar>real_of_int n\<bar> = real_of_int n"
    by (simp add: sgn_if)
  ultimately show ?thesis by (simp add: float32_def Let_def)
qed

lemma bitlen_ge: "2 ^ k \<le> m \<Longrightarrow> k < bitlen m"
proof (induction k arbitrary: m)
  case 0
  then show ?case by (subst bitlen.simps) simp
next
  case (Suc k)
  have "2 ^ k \<le> m div 2" using Suc.prems by simp
  then have "k < bitlen (m div 2)" by (rule Suc.IH)
  moreover have "(0::nat) < 2 ^ Suc k" by simp
  then have "m \<noteq> 0" using Suc.prems by linarith
  ultimately show ?case by (subst bitlen.simps) simp
qed

lemma bitlen_25: "bitlen 16777217 = 25"
  using bitlen_le [of 16777217 25] bitlen_ge [of 24 16777217] by simp

lemma float32_rounds: "float32 16777217 = 16777216"
  by (simp add: float32_def Let_def bitlen_25)

subsection \<open>Snapshot and restore\<close>

text \<open>\<^verbatim>\<open>load_state_dict\<close> when the three keys it reads are present.\<close>

lemma load_state_dict_found:
  assumes "map_of sd ''step'' = Some st" and "map_of sd ''consumed_samples'' = Some cs"
    and "map_of sd ''ppo_optimization_step'' = Some os"
  shows "load_state_dict rank sent self sd =
     (if map real_of_int [st, cs, os] = broadcast rank sent (map float32 [st, cs, os])
      then (Inr (), set_max_steps (self\<lparr>step := st, consumed_samples := cs,
              reinforce_optimization_step := os\<rparr>))
      else (Inl AssertionError, self\<lparr>step := st, consumed_samples := cs,
              reinforce_optimization_step := os\<rparr>))"
  using assms by (simp add: load_state_dict_def Let_def)

lemma load_state_dict_ok_found:
  assumes ok: "fst (load_state_dict rank sent self sd) = Inr ()"
  shows "\<exists>st cs os. map_of sd ''step'' = Some st \<and> map_of sd ''consumed_samples'' = Some cs
     \<and> map_of sd ''ppo_optimization_step'' = Some os"
proof -
  obtain st where st: "map_of sd ''step'' = Some st"
    using ok by (cases "map_of sd ''step''") (simp_all add: load_state_dict_def)
  obtain cs where cs: "map_of sd ''consumed_samples'' = Some cs"
    using ok st by (cases "map_of sd ''consumed_samples''") (simp_all add: load_state_dict_def)
  obtain os where os: "map_of sd ''ppo_optimization_step'' = Some os"
    using ok st cs
    by (cases "map_of sd ''ppo_optimization_step''") (simp_all add: load_state_dict_def)
  show ?thesis using st cs os by simp
qed

lemma set_max_steps_counters:
  "step (set_max_steps t) = step t" "consumed_samples (set_max_steps t) = consumed_samples t"
  "reinforce_optimization_step (set_max_steps t) = reinforce_optimization_step t"
  "num_steps_per_epoch (set_max_steps t) = num_steps_per_epoch t"
  by (simp_all add: set_max_steps_def Let_def)

lemma set_max_steps_value:
  "max_steps (set_max_steps t) =
     (case cfg_max_steps t of
        None \<Rightarrow> num_steps_per_epoch t * cfg_max_epochs t
      | Some m \<Rightarrow>
          if m \<ge> 0 then min (num_steps_per_epoch t * cfg_max_epochs t) m
          else num_steps_per_epoch t * cfg_max_epochs t)"
  by (simp add: set_max_steps_def Let_def split: option.splits)

lemma state_dict_Inr:
  assumes "state_dict s = Inr sd"
  shows "num_steps_per_epoch s \<noteq> 0"
    and "sd = [(''step'', step s), (''consumed_samples'', consumed_samples s),
               (''epoch'', step s div num_steps_per_epoch s),
               (''ppo_optimization_step'', reinforce_optimization_step s)]"
  using assms by (auto simp: state_dict_def epoch_def split: if_splits)

text \<open>
  C9. \<^verbatim>\<open>set_max_steps\<close> sets \<open>max_steps\<close> to
  \<open>num_steps_per_epoch * max_epochs\<close>, capped by the configured \<^verbatim>\<open>max_steps\<close> when that
  key is present with a value \<open>\<ge> 0\<close> (an absent key reads as \<open>-1\<close>, and a negative value
  leaves the product); a restore that passes its assertion recomputes it by the same
  formula; with 10 steps per epoch and 3 epochs the result is 30 without a cap, 25 with
  the cap 25 and 30 with the cap \<open>-1\<close>.
\<close>

theorem set_max_steps_formula:
  "max_steps (set_max_steps self) =
     (case cfg_max_steps self of
        None \<Rightarrow> num_steps_per_epoch self * cfg_max_epochs self
      | Some m \<Rightarrow>
          if m \<ge> 0 then min (num_steps_per_epoch self * cfg_max_epochs self) m
          else num_steps_per_epoch self * cfg_max_epochs self)
   \<and> (fst (load_state_dict rank sent self sd) = Inr () \<longrightarrow>
        max_steps (snd (load_state_dict rank sent self sd)) =
          (case cfg_max_steps self of
             None \<Rightarrow> num_steps_per_epoch self * cfg_max_epochs self
           | Some m \<Rightarrow>
               if m \<ge> 0 then min (num_steps_per_epoch self * cfg_max_epochs self) m
               else num_steps_per_epoch self * cfg_max_epochs self))
   \<and> max_steps (set_max_steps (self\<lparr>num_steps_per_epoch := 10, cfg_max_epochs := 3,
          cfg_max_steps := None\<rparr>)) = 30
   \<and> max_steps (set_max_steps (self\<lparr>num_steps_per_epoch := 10, cfg_max_epochs := 3,
          cfg_max_steps := Some 25\<rparr>)) = 25
   \<and> max_steps (set_max_steps (self\<lparr>num_steps_per_epoch := 10, cfg_max_epochs := 3,
          cfg_max_steps := Some (- 1)\<rparr>)) = 30"
proof (intro conjI impI)
  assume ok: "fst (load_state_dict rank sent self sd) = Inr ()"
  from load_state_dict_ok_found [OF ok] obtain st cs os where
    f: "map_of sd ''step'' = Some st" "map_of sd ''consumed_samples'' = Some cs"
      "map_of sd ''ppo_optimization_step'' = Some os" by blast
  have "snd (load_state_dict rank sent self sd) =
      set_max_steps (self\<lparr>step := st, consumed_samples := cs,
        reinforce_optimization_step := os\<rparr>)"
    using ok by (simp add: load_state_dict_found [OF f] split: if_splits)
  then show "max_steps (snd (load_state_dict rank sent self sd)) =
          (case cfg_max_steps self of
             None \<Rightarrow> num_steps_per_epoch self * cfg_max_epochs self
           | Some m \<Rightarrow>
               if m \<ge> 0 then min (num_steps_per_epoch self * cfg_max_epochs self) m
               else num_steps_per_epoch self * cfg_max_epochs self)"
    by (simp add: set_max_steps_value split: option.splits)
qed (simp_all add: set_max_steps_value)

text \<open>A restore on rank 0 that passes its assertion, with the cap 25.\<close>

theorem set_max_steps_formula_witness:
  "fst (load_state_dict 0 []
      \<lparr>step = 0, consumed_samples = 0, reinforce_optimization_step = 0,
       num_steps_per_epoch = 10, cfg_max_epochs = 3, cfg_max_steps = Some 25, max_steps = 0\<rparr>
      [(''step'', 7), (''consumed_samples'', 448), (''epoch'', 0),
       (''ppo_optimization_step'', 14)]) = Inr ()
   \<and> max_steps (snd (load_state_dict 0 []
      \<lparr>step = 0, consumed_samples = 0, reinforce_optimization_step = 0,
       num_steps_per_epoch = 10, cfg_max_epochs = 3, cfg_max_steps = Some 25, max_steps = 0\<rparr>
      [(''step'', 7), (''consumed_samples'', 448), (''epoch'', 0),
       (''ppo_optimization_step'', 14)])) = 25"
proof -
  have ok: "fst (load_state_dict 0 []
      \<lparr>step = 0, consumed_samples = 0, reinforce_optimization_step = 0,
       num_steps_per_epoch = 10, cfg_max_epochs = 3, cfg_max_steps = Some 25, max_steps = 0\<rparr>
      [(''step'', 7), (''consumed_samples'', 448), (''epoch'', 0),
       (''ppo_optimization_step'', 14)]) = Inr ()"
    by (simp add: load_state_dict_def Let_def broadcast_def float32_exact)
  show ?thesis
    using ok set_max_steps_formula [of
      "\<lparr>step = 0, consumed_samples = 0, reinforce_optimization_step = 0,
       num_steps_per_epoch = 10, cfg_max_epochs = 3, cfg_max_steps = Some 25, max_steps = 0\<rparr>"
      0 "[]" "[(''step'', 7), (''consumed_samples'', 448), (''epoch'', 0),
       (''ppo_optimization_step'', 14)]"]
    by simp
qed

text \<open>
  What the restore does where the conversion is exact: a worker other than rank 0 whose
  loaded values differ from the tensor it receives raises, and a worker whose counters
  are below \<open>2 ^ 24\<close> in magnitude, on rank 0 or receiving the values it loaded, returns
  with the counters of the snapshot.
\<close>

lemma load_state_dict_mismatch:
  assumes "state_dict s = Inr sd" and "rank \<noteq> 0"
    and "map real_of_int [step s, consumed_samples s, reinforce_optimization_step s] \<noteq> sent"
  shows "load_state_dict rank sent self sd =
     (Inl AssertionError, self\<lparr>step := step s, consumed_samples := consumed_samples s,
        reinforce_optimization_step := reinforce_optimization_step s\<rparr>)"
proof -
  note sd = state_dict_Inr(2) [OF assms(1)]
  have f: "map_of sd ''step'' = Some (step s)"
    "map_of sd ''consumed_samples'' = Some (consumed_samples s)"
    "map_of sd ''ppo_optimization_step'' = Some (reinforce_optimization_step s)"
    by (simp_all add: sd)
  show ?thesis
    using assms(2,3) by (simp add: load_state_dict_found [OF f] broadcast_def)
qed

lemma load_state_dict_restores:
  assumes "state_dict s = Inr sd"
    and "\<bar>step s\<bar> < 2 ^ 24" and "\<bar>consumed_samples s\<bar> < 2 ^ 24"
    and "\<bar>reinforce_optimization_step s\<bar> < 2 ^ 24"
    and "rank = 0 \<or>
      sent = map real_of_int [step s, consumed_samples s, reinforce_optimization_step s]"
  shows "load_state_dict rank sent self sd =
     (Inr (), set_max_steps (self\<lparr>step := step s, consumed_samples := consumed_samples s,
        reinforce_optimization_step := reinforce_optimization_step s\<rparr>))"
proof -
  note sd = state_dict_Inr(2) [OF assms(1)]
  have f: "map_of sd ''step'' = Some (step s)"
    "map_of sd ''consumed_samples'' = Some (consumed_samples s)"
    "map_of sd ''ppo_optimization_step'' = Some (reinforce_optimization_step s)"
    by (simp_all add: sd)
  show ?thesis
    using assms(5)
    by (auto simp: load_state_dict_found [OF f] broadcast_def float32_exact [OF assms(2)]
        float32_exact [OF assms(3)] float32_exact [OF assms(4)])
qed

text \<open>
  C6, on a trainer whose consumed-samples counter is \<open>2 ^ 24 + 1 = 16777217\<close>, every
  worker restoring the snapshot of that trainer: \<^verbatim>\<open>load_state_dict\<close> raises
  \<^verbatim>\<open>AssertionError\<close> on rank 0, and on every other rank given the tensor that rank 0
  built from the same snapshot, although no worker loaded other values than rank 0;
  the single-precision tensor holds 16777216 for the counter.
\<close>

theorem load_state_dict_rejects_own_snapshot:
  "state_dict \<lparr>step = 1, consumed_samples = 16777217, reinforce_optimization_step = 1,
       num_steps_per_epoch = 10, cfg_max_epochs = 3, cfg_max_steps = None, max_steps = 30\<rparr> =
     Inr [(''step'', 1), (''consumed_samples'', 16777217), (''epoch'', 0),
          (''ppo_optimization_step'', 1)]
   \<and> map float32 [1, 16777217, 1] = [1, 16777216, 1]
   \<and> fst (load_state_dict 0 sent
       \<lparr>step = 1, consumed_samples = 16777217, reinforce_optimization_step = 1,
        num_steps_per_epoch = 10, cfg_max_epochs = 3, cfg_max_steps = None, max_steps = 30\<rparr>
       [(''step'', 1), (''consumed_samples'', 16777217), (''epoch'', 0),
        (''ppo_optimization_step'', 1)]) = Inl AssertionError
   \<and> fst (load_state_dict (Suc r) (map float32 [1, 16777217, 1])
       \<lparr>step = 1, consumed_samples = 16777217, reinforce_optimization_step = 1,
        num_steps_per_epoch = 10, cfg_max_epochs = 3, cfg_max_steps = None, max_steps = 30\<rparr>
       [(''step'', 1), (''consumed_samples'', 16777217), (''epoch'', 0),
        (''ppo_optimization_step'', 1)]) = Inl AssertionError"
proof (intro conjI)
  have f1: "float32 1 = 1" using float32_exact [of 1] by simp
  show f: "map float32 [1, 16777217, 1] = [1, 16777216, 1]"
    by (simp add: f1 float32_rounds)
  show "state_dict \<lparr>step = 1, consumed_samples = 16777217, reinforce_optimization_step = 1,
       num_steps_per_epoch = 10, cfg_max_epochs = 3, cfg_max_steps = None, max_steps = 30\<rparr> =
     Inr [(''step'', 1), (''consumed_samples'', 16777217), (''epoch'', 0),
          (''ppo_optimization_step'', 1)]"
    by (simp add: state_dict_def epoch_def)
  show "fst (load_state_dict 0 sent
       \<lparr>step = 1, consumed_samples = 16777217, reinforce_optimization_step = 1,
        num_steps_per_epoch = 10, cfg_max_epochs = 3, cfg_max_steps = None, max_steps = 30\<rparr>
       [(''step'', 1), (''consumed_samples'', 16777217), (''epoch'', 0),
        (''ppo_optimization_step'', 1)]) = Inl AssertionError"
    by (simp add: load_state_dict_def Let_def broadcast_def f1 float32_rounds)
  show "fst (load_state_dict (Suc r) (map float32 [1, 16777217, 1])
       \<lparr>step = 1, consumed_samples = 16777217, reinforce_optimization_step = 1,
        num_steps_per_epoch = 10, cfg_max_epochs = 3, cfg_max_steps = None, max_steps = 30\<rparr>
       [(''step'', 1), (''consumed_samples'', 16777217), (''epoch'', 0),
        (''ppo_optimization_step'', 1)]) = Inl AssertionError"
    unfolding f by (simp add: load_state_dict_def Let_def broadcast_def)
qed

text \<open>
  C7, as amended. The snapshot has four integer entries, in this order: \<^verbatim>\<open>step\<close>,
  \<^verbatim>\<open>consumed_samples\<close>, \<^verbatim>\<open>epoch\<close> and \<^verbatim>\<open>ppo_optimization_step\<close>; the stored epoch is
  \<open>step div num_steps_per_epoch\<close>, the value of the derived property \<^verbatim>\<open>epoch\<close>;
  \<^verbatim>\<open>load_state_dict\<close> does not read the stored epoch, and after a restore the epoch is
  again derived from the restored step.
\<close>

theorem state_dict_contents:
  assumes "state_dict self = Inr sd"
  shows "map fst sd = [''step'', ''consumed_samples'', ''epoch'', ''ppo_optimization_step'']
     \<and> map snd sd = [step self, consumed_samples self,
          step self div num_steps_per_epoch self, reinforce_optimization_step self]
     \<and> epoch self = Inr (step self div num_steps_per_epoch self)
     \<and> load_state_dict rank sent t (sd[2 := (''epoch'', e)]) = load_state_dict rank sent t sd
     \<and> epoch (snd (load_state_dict rank sent t sd)) =
         (if num_steps_per_epoch t = 0 then Inl ZeroDivisionError
          else Inr (step self div num_steps_per_epoch t))"
proof -
  note nz = state_dict_Inr(1) [OF assms] and sd = state_dict_Inr(2) [OF assms]
  have f: "map_of sd ''step'' = Some (step self)"
    "map_of sd ''consumed_samples'' = Some (consumed_samples self)"
    "map_of sd ''ppo_optimization_step'' = Some (reinforce_optimization_step self)"
    by (simp_all add: sd)
  have g: "map_of (sd[2 := (''epoch'', e)]) ''step'' = Some (step self)"
    "map_of (sd[2 := (''epoch'', e)]) ''consumed_samples'' = Some (consumed_samples self)"
    "map_of (sd[2 := (''epoch'', e)]) ''ppo_optimization_step'' =
       Some (reinforce_optimization_step self)"
    by (simp_all add: sd numeral_2_eq_2)
  have "load_state_dict rank sent t (sd[2 := (''epoch'', e)]) = load_state_dict rank sent t sd"
    by (simp only: load_state_dict_found [OF f] load_state_dict_found [OF g])
  moreover have "epoch (snd (load_state_dict rank sent t sd)) =
         (if num_steps_per_epoch t = 0 then Inl ZeroDivisionError
          else Inr (step self div num_steps_per_epoch t))"
    by (simp add: load_state_dict_found [OF f] epoch_def set_max_steps_counters)
  moreover have "epoch self = Inr (step self div num_steps_per_epoch self)"
    using nz by (simp add: epoch_def)
  ultimately show ?thesis by (simp add: sd)
qed

text \<open>The snapshot at step 25 with 10 steps per epoch.\<close>

theorem state_dict_contents_witness:
  "state_dict \<lparr>step = 25, consumed_samples = 400, reinforce_optimization_step = 50,
       num_steps_per_epoch = 10, cfg_max_epochs = 3, cfg_max_steps = None, max_steps = 30\<rparr> =
     Inr [(''step'', 25), (''consumed_samples'', 400), (''epoch'', 2),
          (''ppo_optimization_step'', 50)]
   \<and> epoch \<lparr>step = 25, consumed_samples = 400, reinforce_optimization_step = 50,
       num_steps_per_epoch = 10, cfg_max_epochs = 3, cfg_max_steps = None, max_steps = 30\<rparr> =
     Inr 2"
proof -
  have sd: "state_dict \<lparr>step = 25, consumed_samples = 400, reinforce_optimization_step = 50,
       num_steps_per_epoch = 10, cfg_max_epochs = 3, cfg_max_steps = None, max_steps = 30\<rparr> =
     Inr [(''step'', 25), (''consumed_samples'', 400), (''epoch'', 2),
          (''ppo_optimization_step'', 50)]"
    by (simp add: state_dict_def epoch_def)
  show ?thesis using sd state_dict_contents [OF sd] by simp
qed

text \<open>
  C7, as stated, fails: the snapshot at step 25 has an \<^verbatim>\<open>epoch\<close> entry, and its fourth
  key is \<^verbatim>\<open>ppo_optimization_step\<close>.
\<close>

theorem state_dict_stores_epoch:
  "state_dict \<lparr>step = 25, consumed_samples = 400, reinforce_optimization_step = 50,
       num_steps_per_epoch = 10, cfg_max_epochs = 3, cfg_max_steps = None, max_steps = 30\<rparr> =
     Inr [(''step'', 25), (''consumed_samples'', 400), (''epoch'', 2),
          (''ppo_optimization_step'', 50)]"
  by (simp add: state_dict_def epoch_def)

subsection \<open>Reward blending\<close>

text \<open>
  C2. For every sample \<open>i\<close> the training path blends to
  \<open>rm_reward * rm_multiplier + constraint_mask * constraint_reward * constraint_multiplier\<close>
  and the validation path to
  \<open>constraint_multiplier * constraint_mask * constraint_reward + (1 - constraint_mask) * rm_reward\<close>;
  for the reward-model reward 2, the constraint reward 1, the mask 1 and the multipliers
  1/2 and 2 the training path gives 3 and the validation path 2, so the two differ.
\<close>

theorem reward_blending:
  assumes "i < length rm" and "length ifeval_mask = length rm" and "length ifeval = length rm"
  shows "training_rewards rm_multiplier ifeval_multiplier rm ifeval_mask ifeval ! i =
           rm ! i * rm_multiplier + ifeval_mask ! i * ifeval ! i * ifeval_multiplier
     \<and> validation_rewards ifeval_multiplier rm ifeval_mask ifeval ! i =
           ifeval_multiplier * ifeval_mask ! i * ifeval ! i + (1 - ifeval_mask ! i) * rm ! i
     \<and> length (training_rewards rm_multiplier ifeval_multiplier rm ifeval_mask ifeval) = length rm
     \<and> length (validation_rewards ifeval_multiplier rm ifeval_mask ifeval) = length rm
     \<and> training_rewards (1 / 2) 2 [2] [1] [1] = [3]
     \<and> validation_rewards 2 [2] [1] [1] = [2]
     \<and> training_rewards (1 / 2) 2 [2] [1] [1] \<noteq> validation_rewards 2 [2] [1] [1]"
  using assms by (simp add: training_rewards_def validation_rewards_def)

text \<open>The second of two samples, the one without a constraint.\<close>

theorem reward_blending_witness:
  "training_rewards 3 5 [2, 7] [1, 0] [4, 6] ! 1 = 21
   \<and> validation_rewards 5 [2, 7] [1, 0] [4, 6] ! 1 = 7"
  using reward_blending [of 1 "[2, 7]" "[1, 0]" "[4, 6]" 3 5] by simp

subsection \<open>The per-sample KL penalty\<close>

lemma sum_list_masked:
  "\<forall>(x, w) \<in> set zs. w = 0 \<or> w = (1::real) \<Longrightarrow>
   sum_list (map (\<lambda>(x, w). x * w) zs) = sum_list (map fst (filter (\<lambda>(x, w). w = 1) zs))"
  by (induction zs) auto

text \<open>
  C4, as amended. With the KL penalty enabled and a mask of zeros and ones, the
  per-sample scalar of sample \<open>i\<close> is the sum of the per-token values over the positions
  the mask keeps, divided by the length of the whole row: a masked position adds nothing
  to the numerator and is counted in the denominator.
\<close>

theorem masked_init_policy_kl_mean:
  assumes "i < length msk" and "length per_token = length msk"
    and "length (per_token ! i) = length (msk ! i)" and "msk ! i \<noteq> []"
    and "\<forall>w \<in> set (msk ! i). w = 0 \<or> w = 1"
  shows "masked_init_policy_kl (Some per_token) msk ! i =
     Some (sum_list (map fst (filter (\<lambda>(x, w). w = 1) (zip (per_token ! i) (msk ! i))))
           / real (length (msk ! i)))"
proof -
  have "\<forall>(x, w) \<in> set (zip (per_token ! i) (msk ! i)). w = 0 \<or> w = 1"
    using assms(5) by (auto dest: set_zip_rightD)
  then have s: "sum_list (map (\<lambda>(x, w). x * w) (zip (per_token ! i) (msk ! i))) =
      sum_list (map fst (filter (\<lambda>(x, w). w = 1) (zip (per_token ! i) (msk ! i))))"
    by (rule sum_list_masked)
  have ne: "zip (per_token ! i) (msk ! i) \<noteq> []"
    using assms(3,4) by (cases "per_token ! i"; cases "msk ! i") auto
  have "masked_init_policy_kl (Some per_token) msk ! i =
      tensor_mean (map (\<lambda>(x, w). x * w) (zip (per_token ! i) (msk ! i)))"
    using assms(1,2) by (simp add: masked_init_policy_kl_def)
  also have "\<dots> = Some (sum_list (map (\<lambda>(x, w). x * w) (zip (per_token ! i) (msk ! i)))
      / real (length (msk ! i)))"
    using ne assms(3) by (simp add: tensor_mean_def)
  finally show ?thesis by (simp only: s)
qed

text \<open>A row of four positions of which the mask keeps the two in the middle.\<close>

theorem masked_init_policy_kl_mean_witness:
  "masked_init_policy_kl (Some [[3, 5, 7, 9]]) [[0, 1, 1, 0]] ! 0 = Some 3"
  using masked_init_policy_kl_mean [of 0 "[[0, 1, 1, 0]]" "[[3, 5, 7, 9]]"] by simp

text \<open>
  C4, as stated, fails: on the per-token values 1, 1 with the second position masked
  the code yields 1/2, and the mean over the kept position alone is 1.
\<close>

theorem masked_init_policy_kl_counts_masked_positions:
  "masked_init_policy_kl (Some [[1, 1]]) [[1, 0]] = [Some (1 / 2)]
   \<and> spec_masked_mean [1, 1] [1, 0] = Some 1"
  by (simp add: masked_init_policy_kl_def tensor_mean_def spec_masked_mean_def)

subsection \<open>The leave-one-out baseline\<close>

lemma index_put_Cons: "index_put xs (k # idx) (v # vs) = index_put (xs[k := v]) idx vs"
  by (simp add: index_put_def)

lemma length_index_put: "length (index_put xs idx vs) = length xs"
proof (induction idx arbitrary: xs vs)
  case Nil
  then show ?case by (simp add: index_put_def)
next
  case (Cons k idx)
  then show ?case by (cases vs) (simp_all add: index_put_Cons, simp add: index_put_def)
qed

lemma index_put_other: "i \<notin> set idx \<Longrightarrow> index_put xs idx vs ! i = xs ! i"
proof (induction idx arbitrary: xs vs)
  case Nil
  then show ?case by (simp add: index_put_def)
next
  case (Cons k idx)
  show ?case
  proof (cases vs)
    case Nil
    then show ?thesis by (simp add: index_put_def)
  next
    case (Cons v vs')
    then show ?thesis using Cons.IH [of "xs[k := v]" vs'] Cons.prems
      by (simp add: index_put_Cons)
  qed
qed

lemma index_put_nth:
  "distinct idx \<Longrightarrow> length vs = length idx \<Longrightarrow> \<forall>k \<in> set idx. k < length xs \<Longrightarrow>
   a < length idx \<Longrightarrow> index_put xs idx vs ! (idx ! a) = vs ! a"
proof (induction idx arbitrary: xs vs a)
  case Nil
  then show ?case by simp
next
  case (Cons k idx)
  from Cons.prems(2) obtain v vs' where vs: "vs = v # vs'" by (cases vs) auto
  show ?case
  proof (cases a)
    case 0
    have "index_put (xs[k := v]) idx vs' ! k = xs[k := v] ! k"
      using Cons.prems(1) by (intro index_put_other) simp
    then show ?thesis using 0 vs Cons.prems(3) by (simp add: index_put_Cons)
  next
    case (Suc a')
    have "index_put (xs[k := v]) idx vs' ! (idx ! a') = vs' ! a'"
      using Cons.prems vs Suc by (intro Cons.IH) auto
    then show ?thesis using Suc vs by (simp add: index_put_Cons)
  qed
qed

lemma zip_map_upt:
  "length v = n \<Longrightarrow> zip (map f [0..<n]) v = map (\<lambda>b. (f b, v ! b)) [0..<n]"
  by (rule nth_equalityI) simp_all

lemma matmul_rloo_mat:
  assumes "a < n" and "length v = n"
  shows "matmul (rloo_mat n) v ! a = (\<Sum>b \<in> {0..<n} - {a}. v ! b)"
proof -
  have "matmul (rloo_mat n) v ! a =
      sum_list (map (\<lambda>b. (1 - (if a = b then 1 else 0)) * v ! b) [0..<n])"
    using assms by (simp add: matmul_def rloo_mat_def zip_map_upt comp_def)
  also have "\<dots> = (\<Sum>b \<in> {0..<n}. (1 - (if a = b then 1 else 0)) * v ! b)"
    by (simp add: interv_sum_list_conv_sum_set_nat)
  also have "\<dots> = (\<Sum>b \<in> {0..<n}. if b = a then 0 else v ! b)"
    by (intro sum.cong) auto
  also have "\<dots> = (\<Sum>b \<in> {0..<n} - {a}. v ! b)"
    by (simp add: sum.If_cases Diff_eq Int_commute set_diff_eq)
  finally show ?thesis .
qed


lemma sum_nth_others:
  assumes "distinct xs" and "a < length xs"
  shows "(\<Sum>b \<in> {0..<length xs} - {a}. f (xs ! b)) =
     sum_list (map f (filter (\<lambda>j. j \<noteq> xs ! a) xs))"
proof -
  have inj: "inj_on ((!) xs) ({0..<length xs} - {a})"
    using assms(1) by (intro inj_on_nth) auto
  have img: "(!) xs ` ({0..<length xs} - {a}) = set xs - {xs ! a}"
  proof (intro equalityI subsetI)
    fix x assume "x \<in> (!) xs ` ({0..<length xs} - {a})"
    then obtain b where b: "b < length xs" "b \<noteq> a" "x = xs ! b"
      by (elim imageE DiffE) simp
    then show "x \<in> set xs - {xs ! a}"
      using assms by (simp add: nth_eq_iff_index_eq)
  next
    fix x assume "x \<in> set xs - {xs ! a}"
    then obtain b where b: "b < length xs" "xs ! b = x" "x \<noteq> xs ! a"
      by (auto simp: in_set_conv_nth)
    then have "b \<in> {0..<length xs} - {a}" by auto
    then show "x \<in> (!) xs ` ({0..<length xs} - {a})" using b(2) by blast
  qed
  have "(\<Sum>b \<in> {0..<length xs} - {a}. f (xs ! b)) = sum f ((!) xs ` ({0..<length xs} - {a}))"
    by (simp add: sum.reindex [OF inj])
  also have "\<dots> = sum f (set (filter (\<lambda>j. j \<noteq> xs ! a) xs))"
    by (simp only: img) (rule arg_cong [of _ _ "sum f"], auto)
  also have "\<dots> = sum_list (map f (filter (\<lambda>j. j \<noteq> xs ! a) xs))"
    using assms(1) by (simp add: sum_list_distinct_conv_sum_set)
  finally show ?thesis .
qed

lemma prompt_idx_props:
  "distinct (prompt_idx ps u)" "set (prompt_idx ps u) = {k. k < length ps \<and> ps ! k = u}"
  by (auto simp: prompt_idx_def)

lemma length_matmul: "length (matmul (rloo_mat n) v) = n"
  by (simp add: matmul_def rloo_mat_def)

lemma rloo_group_nth:
  assumes "length bl = length ps" and "i < length ps"
  shows "rloo_group ps reg u bl ! i =
     (if ps ! i = u
      then tensor_div (sum_list (map ((!) reg) (filter (\<lambda>j. j \<noteq> i) (prompt_idx ps u))))
             (int (length (prompt_idx ps u)) - 1)
      else bl ! i)"
proof (cases "ps ! i = u")
  case False
  then have "i \<notin> set (prompt_idx ps u)" by (simp add: prompt_idx_props)
  then show ?thesis using False by (simp add: rloo_group_def Let_def index_put_other)
next
  case True
  define idx where "idx = prompt_idx ps u"
  define v where "v = map ((!) reg) idx"
  have d: "distinct idx" and s: "set idx = {k. k < length ps \<and> ps ! k = u}"
    by (simp_all add: idx_def prompt_idx_props)
  from True assms(2) s have "i \<in> set idx" by simp
  then obtain a where a: "a < length idx" "idx ! a = i" by (auto simp: in_set_conv_nth)
  have "matmul (rloo_mat (length idx)) v ! a = (\<Sum>b \<in> {0..<length idx} - {a}. v ! b)"
    using a by (intro matmul_rloo_mat) (simp_all add: v_def)
  also have "\<dots> = (\<Sum>b \<in> {0..<length idx} - {a}. reg ! (idx ! b))"
    by (intro sum.cong) (simp_all add: v_def)
  also have "\<dots> = sum_list (map ((!) reg) (filter (\<lambda>j. j \<noteq> idx ! a) idx))"
    using d a(1) by (rule sum_nth_others)
  finally have m: "matmul (rloo_mat (length idx)) v ! a =
      sum_list (map ((!) reg) (filter (\<lambda>j. j \<noteq> i) idx))" by (simp add: a)
  have "rloo_group ps reg u bl ! (idx ! a) =
      map (\<lambda>x. tensor_div x (int (length idx) - 1)) (matmul (rloo_mat (length idx)) v) ! a"
    unfolding rloo_group_def Let_def idx_def [symmetric] v_def
    using d a(1) s assms(1) by (intro index_put_nth) (auto simp: length_matmul)
  then show ?thesis using True a m by (simp add: length_matmul idx_def)
qed

lemma length_rloo_group: "length (rloo_group ps reg u bl) = length bl"
  by (simp add: rloo_group_def Let_def length_index_put)

lemma fold_rloo_group:
  assumes "length bl = length ps" and "i < length ps"
  shows "length (fold (rloo_group ps reg) us bl) = length ps \<and>
     fold (rloo_group ps reg) us bl ! i =
       (if ps ! i \<in> set us
        then tensor_div
               (sum_list (map ((!) reg) (filter (\<lambda>j. j \<noteq> i) (prompt_idx ps (ps ! i)))))
               (int (length (prompt_idx ps (ps ! i))) - 1)
        else bl ! i)"
  using assms
proof (induction us arbitrary: bl)
  case Nil
  then show ?case by simp
next
  case (Cons u us)
  have l: "length (rloo_group ps reg u bl) = length ps"
    using Cons.prems by (simp add: length_rloo_group)
  show ?case
    using Cons.IH [OF l Cons.prems(2)] rloo_group_nth [OF Cons.prems, of reg u]
    by auto
qed

lemma set_unique_rows: "set (unique_rows ps) = set ps"
  by (simp add: unique_rows_def)

lemma get_rloo_baseline_nth:
  assumes "length (rewards batch) = length (prompt_tokens batch)"
    and "length (init_policy_kl batch) = length (prompt_tokens batch)"
    and "i < length (prompt_tokens batch)"
  shows "baseline (get_rloo_baseline c batch) ! i =
     tensor_div
       (sum_list (map (\<lambda>j. rewards batch ! j - c * init_policy_kl batch ! j)
          (filter (\<lambda>j. j \<noteq> i) (prompt_idx (prompt_tokens batch) (prompt_tokens batch ! i)))))
       (int (length (prompt_idx (prompt_tokens batch) (prompt_tokens batch ! i))) - 1)"
    and "length (baseline (get_rloo_baseline c batch)) = length (prompt_tokens batch)"
proof -
  define ps where "ps = prompt_tokens batch"
  define reg where "reg = map2 (\<lambda>r k. r - c * k) (rewards batch) (init_policy_kl batch)"
  define zeros :: "real option list" where "zeros = map (\<lambda>_. Some 0) (rewards batch)"
  have b: "baseline (get_rloo_baseline c batch) =
      fold (rloo_group ps reg) (unique_rows ps) zeros"
    by (simp add: get_rloo_baseline_def Let_def ps_def reg_def zeros_def)
  have lz: "length zeros = length ps" using assms(1) by (simp add: zeros_def ps_def)
  have i: "i < length ps" using assms(3) by (simp add: ps_def)
  have mem: "ps ! i \<in> set (unique_rows ps)" using i by (simp add: set_unique_rows)
  have regj: "reg ! j = rewards batch ! j - c * init_policy_kl batch ! j"
    if "j \<in> set (prompt_idx ps (ps ! i))" for j
    using that assms(1,2) by (simp add: prompt_idx_props reg_def ps_def)
  have meq: "map ((!) reg) (filter (\<lambda>j. j \<noteq> i) (prompt_idx ps (ps ! i))) =
      map (\<lambda>j. rewards batch ! j - c * init_policy_kl batch ! j)
        (filter (\<lambda>j. j \<noteq> i) (prompt_idx ps (ps ! i)))"
    by (rule map_cong) (simp_all add: regj)
  have f: "fold (rloo_group ps reg) (unique_rows ps) zeros ! i =
      tensor_div
        (sum_list (map ((!) reg) (filter (\<lambda>j. j \<noteq> i) (prompt_idx ps (ps ! i)))))
        (int (length (prompt_idx ps (ps ! i))) - 1)"
    using fold_rloo_group [OF lz i, of reg "unique_rows ps"] mem by simp
  have "baseline (get_rloo_baseline c batch) ! i =
     tensor_div
       (sum_list (map (\<lambda>j. rewards batch ! j - c * init_policy_kl batch ! j)
          (filter (\<lambda>j. j \<noteq> i) (prompt_idx ps (ps ! i)))))
       (int (length (prompt_idx ps (ps ! i))) - 1)"
    by (simp only: b f meq)
  then show "baseline (get_rloo_baseline c batch) ! i =
     tensor_div
       (sum_list (map (\<lambda>j. rewards batch ! j - c * init_policy_kl batch ! j)
          (filter (\<lambda>j. j \<noteq> i) (prompt_idx (prompt_tokens batch) (prompt_tokens batch ! i)))))
       (int (length (prompt_idx (prompt_tokens batch) (prompt_tokens batch ! i))) - 1)"
    by (simp only: ps_def)
  show "length (baseline (get_rloo_baseline c batch)) = length (prompt_tokens batch)"
    using fold_rloo_group [OF lz i, of reg "unique_rows ps"] by (simp add: b ps_def)
qed

text \<open>
  C1. The group of sample \<open>i\<close> is the set of the samples whose whole prompt row equals
  that of \<open>i\<close>. When the group has \<open>n \<ge> 2\<close> members, the baseline of \<open>i\<close> is the sum of
  the regularized rewards \<open>reward - kl_coefficient * KL\<close> of the other members divided by
  \<open>n - 1\<close>; the baselines are in the order of the samples, one per sample; two samples
  of one prompt with regularized rewards \<open>[a', b']\<close> get the baselines \<open>[b', a']\<close>.
\<close>

theorem rloo_baseline_leave_one_out:
  assumes "length (rewards batch) = length (prompt_tokens batch)"
    and "length (init_policy_kl batch) = length (prompt_tokens batch)"
    and "i < length (prompt_tokens batch)"
    and "2 \<le> length (prompt_idx (prompt_tokens batch) (prompt_tokens batch ! i))"
  shows "set (prompt_idx (prompt_tokens batch) (prompt_tokens batch ! i)) =
       {j. j < length (prompt_tokens batch) \<and> prompt_tokens batch ! j = prompt_tokens batch ! i}
     \<and> baseline (get_rloo_baseline c batch) ! i =
       Some (sum_list (map (\<lambda>j. rewards batch ! j - c * init_policy_kl batch ! j)
               (filter (\<lambda>j. j \<noteq> i)
                  (prompt_idx (prompt_tokens batch) (prompt_tokens batch ! i))))
             / real (length (prompt_idx (prompt_tokens batch) (prompt_tokens batch ! i)) - 1))
     \<and> length (baseline (get_rloo_baseline c batch)) = length (prompt_tokens batch)
     \<and> baseline (get_rloo_baseline c
          (batch\<lparr>prompt_tokens := [p, p], rewards := [a, b], init_policy_kl := [ka, kb]\<rparr>)) =
        [Some (b - c * kb), Some (a - c * ka)]"
proof (intro conjI)
  let ?n = "length (prompt_idx (prompt_tokens batch) (prompt_tokens batch ! i))"
  let ?s = "sum_list (map (\<lambda>j. rewards batch ! j - c * init_policy_kl batch ! j)
               (filter (\<lambda>j. j \<noteq> i)
                  (prompt_idx (prompt_tokens batch) (prompt_tokens batch ! i))))"
  have nz: "int ?n - 1 \<noteq> 0" using assms(4) by linarith
  have r: "real_of_int (int ?n - 1) = real (?n - 1)"
    using assms(4) by (simp add: of_nat_diff)
  have "baseline (get_rloo_baseline c batch) ! i = tensor_div ?s (int ?n - 1)"
    by (rule get_rloo_baseline_nth(1) [OF assms(1,2,3)])
  also have "\<dots> = Some (?s / real_of_int (int ?n - 1))"
    using nz by (simp only: tensor_div_def if_False)
  finally show "baseline (get_rloo_baseline c batch) ! i = Some (?s / real (?n - 1))"
    by (simp only: r)
  show "length (baseline (get_rloo_baseline c batch)) = length (prompt_tokens batch)"
    by (rule get_rloo_baseline_nth(2) [OF assms(1,2,3)])
  show "baseline (get_rloo_baseline c
          (batch\<lparr>prompt_tokens := [p, p], rewards := [a, b], init_policy_kl := [ka, kb]\<rparr>)) =
        [Some (b - c * kb), Some (a - c * ka)]"
  proof -
    let ?B = "batch\<lparr>prompt_tokens := [p, p], rewards := [a, b], init_policy_kl := [ka, kb]\<rparr>"
    have l: "length (rewards ?B) = length (prompt_tokens ?B)"
      "length (init_policy_kl ?B) = length (prompt_tokens ?B)" by simp_all
    have g: "prompt_idx [p, p] p = [0, 1]" by (simp add: prompt_idx_def numeral_2_eq_2)
    have "baseline (get_rloo_baseline c ?B) ! 0 = Some (b - c * kb)"
      using get_rloo_baseline_nth(1) [OF l, of 0 c] by (simp add: g tensor_div_def)
    moreover have "baseline (get_rloo_baseline c ?B) ! 1 = Some (a - c * ka)"
      using get_rloo_baseline_nth(1) [OF l, of 1 c] by (simp add: g tensor_div_def)
    moreover have "length (baseline (get_rloo_baseline c ?B)) = 2"
      using get_rloo_baseline_nth(2) [OF l, of 0 c] by simp
    ultimately show ?thesis
      by (intro nth_equalityI) (auto simp: less_Suc_eq numeral_2_eq_2)
  qed
qed (simp add: prompt_idx_props)


text \<open>Four samples, three of them of one prompt: the baseline of the first is \<open>(6 + 8) / 2\<close>.\<close>

theorem rloo_baseline_leave_one_out_witness:
  "baseline (get_rloo_baseline (1 / 2)
     \<lparr>prompt_tokens = [[1, 2], [3, 4], [1, 2], [1, 2]], prompt_lengths = [2, 2, 2, 2],
      response_lengths = [3, 3, 3, 3], response_tokens = [[1, 2, 9], [3, 4, 9], [1, 2, 8], [1, 2, 7]],
      rewards = [5, 7, 9, 12], rm_rewards = [5, 7, 9, 12], ifeval_rewards = [0, 0, 0, 0],
      init_policy_kl = [2, 4, 6, 8], baseline = []\<rparr>) ! 0 = Some 7"
proof -
  have p: "prompt_idx [[1, 2], [3, 4], [1, 2], [1, 2]] [1, 2] = [0, 2, 3]"
    by (simp add: prompt_idx_def)
  show ?thesis
    using rloo_baseline_leave_one_out [of
      "\<lparr>prompt_tokens = [[1, 2], [3, 4], [1, 2], [1, 2]], prompt_lengths = [2, 2, 2, 2],
      response_lengths = [3, 3, 3, 3], response_tokens = [[1, 2, 9], [3, 4, 9], [1, 2, 8], [1, 2, 7]],
      rewards = [5, 7, 9, 12], rm_rewards = [5, 7, 9, 12], ifeval_rewards = [0, 0, 0, 0],
      init_policy_kl = [2, 4, 6, 8], baseline = []\<rparr>" 0 "1 / 2"]
    by (simp add: p)
qed


text \<open>
  C8. \<^verbatim>\<open>get_rloo_baseline\<close> divides by \<open>n - 1\<close> for every group alike, with no guard:
  when every group has at least two members each divisor is nonzero and each baseline
  is a number, and a sample that is alone in its group has the divisor 0 and a baseline
  that is the result of a division by zero.
\<close>

theorem rloo_baseline_singleton_division:
  assumes "length (rewards batch) = length (prompt_tokens batch)"
    and "length (init_policy_kl batch) = length (prompt_tokens batch)"
  shows "(\<forall>i < length (prompt_tokens batch).
          baseline (get_rloo_baseline c batch) ! i =
            tensor_div
              (sum_list (map (\<lambda>j. rewards batch ! j - c * init_policy_kl batch ! j)
                 (filter (\<lambda>j. j \<noteq> i)
                    (prompt_idx (prompt_tokens batch) (prompt_tokens batch ! i)))))
              (int (length (prompt_idx (prompt_tokens batch) (prompt_tokens batch ! i))) - 1))
     \<and> ((\<forall>i < length (prompt_tokens batch).
            2 \<le> length (prompt_idx (prompt_tokens batch) (prompt_tokens batch ! i))) \<longrightarrow>
         (\<forall>i < length (prompt_tokens batch).
            int (length (prompt_idx (prompt_tokens batch) (prompt_tokens batch ! i))) - 1 \<noteq> 0
            \<and> (\<exists>x. baseline (get_rloo_baseline c batch) ! i = Some x)))
     \<and> (\<forall>i < length (prompt_tokens batch).
          length (prompt_idx (prompt_tokens batch) (prompt_tokens batch ! i)) = 1 \<longrightarrow>
          int (length (prompt_idx (prompt_tokens batch) (prompt_tokens batch ! i))) - 1 = 0
          \<and> baseline (get_rloo_baseline c batch) ! i = None)"
proof (intro conjI allI impI)
  fix i assume i: "i < length (prompt_tokens batch)"
  note nth = get_rloo_baseline_nth(1) [OF assms i, of c]
  show "baseline (get_rloo_baseline c batch) ! i =
            tensor_div
              (sum_list (map (\<lambda>j. rewards batch ! j - c * init_policy_kl batch ! j)
                 (filter (\<lambda>j. j \<noteq> i)
                    (prompt_idx (prompt_tokens batch) (prompt_tokens batch ! i)))))
              (int (length (prompt_idx (prompt_tokens batch) (prompt_tokens batch ! i))) - 1)"
    by (rule nth)
  {
    assume "\<forall>i < length (prompt_tokens batch).
            2 \<le> length (prompt_idx (prompt_tokens batch) (prompt_tokens batch ! i))"
    then have n: "2 \<le> length (prompt_idx (prompt_tokens batch) (prompt_tokens batch ! i))"
      using i by simp
    then show "int (length (prompt_idx (prompt_tokens batch) (prompt_tokens batch ! i))) - 1 \<noteq> 0"
      by simp
    then show "\<exists>x. baseline (get_rloo_baseline c batch) ! i = Some x"
      by (simp add: nth tensor_div_def)
  }
  {
    assume n: "length (prompt_idx (prompt_tokens batch) (prompt_tokens batch ! i)) = 1"
    then show "int (length (prompt_idx (prompt_tokens batch) (prompt_tokens batch ! i))) - 1 = 0"
      by simp
    then show "baseline (get_rloo_baseline c batch) ! i = None"
      by (simp add: nth tensor_div_def)
  }
qed

text \<open>The second of three samples is alone in its group; a batch of one group of two.\<close>

theorem rloo_baseline_singleton_division_witness:
  "baseline (get_rloo_baseline 0
     \<lparr>prompt_tokens = [[1], [2], [1]], prompt_lengths = [1, 1, 1],
      response_lengths = [2, 2, 2], response_tokens = [[1, 5], [2, 6], [1, 7]],
      rewards = [4, 5, 6], rm_rewards = [4, 5, 6], ifeval_rewards = [0, 0, 0],
      init_policy_kl = [0, 0, 0], baseline = []\<rparr>) ! 1 = None
   \<and> (\<exists>x. baseline (get_rloo_baseline 0
     \<lparr>prompt_tokens = [[1], [1]], prompt_lengths = [1, 1],
      response_lengths = [2, 2], response_tokens = [[1, 5], [1, 7]],
      rewards = [4, 6], rm_rewards = [4, 6], ifeval_rewards = [0, 0],
      init_policy_kl = [0, 0], baseline = []\<rparr>) ! 1 = Some x)"
proof -
  define B1 :: rollout_batch where "B1 =
     \<lparr>prompt_tokens = [[1], [2], [1]], prompt_lengths = [1, 1, 1],
      response_lengths = [2, 2, 2], response_tokens = [[1, 5], [2, 6], [1, 7]],
      rewards = [4, 5, 6], rm_rewards = [4, 5, 6], ifeval_rewards = [0, 0, 0],
      init_policy_kl = [0, 0, 0], baseline = []\<rparr>"
  define B2 :: rollout_batch where "B2 =
     \<lparr>prompt_tokens = [[1], [1]], prompt_lengths = [1, 1],
      response_lengths = [2, 2], response_tokens = [[1, 5], [1, 7]],
      rewards = [4, 6], rm_rewards = [4, 6], ifeval_rewards = [0, 0],
      init_policy_kl = [0, 0], baseline = []\<rparr>"
  have l1: "length (rewards B1) = length (prompt_tokens B1)"
    "length (init_policy_kl B1) = length (prompt_tokens B1)" by (simp_all add: B1_def)
  have l2: "length (rewards B2) = length (prompt_tokens B2)"
    "length (init_policy_kl B2) = length (prompt_tokens B2)" by (simp_all add: B2_def)
  have i1: "1 < length (prompt_tokens B1)" by (simp add: B1_def)
  have n1: "length (prompt_idx (prompt_tokens B1) (prompt_tokens B1 ! 1)) = 1"
    by (simp add: B1_def prompt_idx_def)
  have i2: "1 < length (prompt_tokens B2)" by (simp add: B2_def)
  have n2: "\<forall>i < length (prompt_tokens B2).
      2 \<le> length (prompt_idx (prompt_tokens B2) (prompt_tokens B2 ! i))"
    by (simp add: B2_def prompt_idx_def less_Suc_eq numeral_2_eq_2)
  have "baseline (get_rloo_baseline 0 B1) ! 1 = None"
    using rloo_baseline_singleton_division [OF l1, of 0] i1 n1 by blast
  moreover have "\<exists>x. baseline (get_rloo_baseline 0 B2) ! 1 = Some x"
    using rloo_baseline_singleton_division [OF l2, of 0] i2 n2 by blast
  ultimately show ?thesis by (simp only: B1_def B2_def)
qed

subsection \<open>Rollout metrics\<close>

text \<open>The local sums as they are accumulated, the reduction, and the reported reward mean.\<close>

lemma fold_accumulate:
  "fold accumulate rbs (a, b, c, d, e, n) =
     (a + (\<Sum>rb\<leftarrow>rbs. sum_list (map2 (-) (response_lengths rb) (prompt_lengths rb))),
      b + (\<Sum>rb\<leftarrow>rbs. sum_list (prompt_lengths rb)),
      c + (\<Sum>rb\<leftarrow>rbs. sum_list (rm_rewards rb)),
      d + (\<Sum>rb\<leftarrow>rbs. sum_list (rm_rewards rb)),
      e + (\<Sum>rb\<leftarrow>rbs. sum_list (ifeval_rewards rb)),
      n + (\<Sum>rb\<leftarrow>rbs. length (prompt_lengths rb)))"
  by (induction rbs arbitrary: a b c d e n) (simp_all add: accumulate_def add.assoc)

lemma tensor_to_accumulate_sums:
  "tensor_to_accumulate rbs =
     [real_of_int (\<Sum>rb\<leftarrow>rbs. sum_list (map2 (-) (response_lengths rb) (prompt_lengths rb))),
      real_of_int (\<Sum>rb\<leftarrow>rbs. sum_list (prompt_lengths rb)),
      (\<Sum>rb\<leftarrow>rbs. sum_list (rm_rewards rb)),
      (\<Sum>rb\<leftarrow>rbs. sum_list (rm_rewards rb)),
      (\<Sum>rb\<leftarrow>rbs. sum_list (ifeval_rewards rb)),
      real (\<Sum>rb\<leftarrow>rbs. length (prompt_lengths rb))]"
  by (simp add: tensor_to_accumulate_def fold_accumulate)

lemma all_reduce_nth:
  "\<forall>p \<in> set peers. length p = length own \<Longrightarrow> k < length own \<Longrightarrow>
   length (all_reduce own peers) = length own \<and>
   all_reduce own peers ! k = own ! k + (\<Sum>p\<leftarrow>peers. p ! k)"
proof (induction peers arbitrary: own)
  case Nil
  then show ?case by (simp add: all_reduce_def)
next
  case (Cons p peers)
  have "all_reduce own (p # peers) = all_reduce (map2 (+) p own) peers"
    by (simp add: all_reduce_def)
  moreover have "length (map2 (+) p own) = length own" using Cons.prems by simp
  moreover have "map2 (+) p own ! k = p ! k + own ! k" using Cons.prems by simp
  ultimately show ?case using Cons.IH [of "map2 (+) p own"] Cons.prems by simp
qed

lemma compute_global_rollout_metrics_rewards:
  assumes "\<forall>p \<in> set peers. length p = 6"
    and "compute_global_rollout_metrics ids_to_text peers rbs = Inr (table, ms)"
  shows "map_of ms ''global_rewards'' =
      Some (((\<Sum>rb\<leftarrow>rbs. sum_list (rm_rewards rb)) + (\<Sum>p\<leftarrow>peers. p ! 2))
            / (real (\<Sum>rb\<leftarrow>rbs. length (prompt_lengths rb)) + (\<Sum>p\<leftarrow>peers. p ! 5)
               + 1 / 1000000))"
proof -
  let ?own = "tensor_to_accumulate rbs"
  have l: "\<forall>p \<in> set peers. length p = length ?own"
    using assms(1) by (simp add: tensor_to_accumulate_sums)
  have "all_reduce ?own peers ! 2 = ?own ! 2 + (\<Sum>p\<leftarrow>peers. p ! 2)"
    using all_reduce_nth [OF l, of 2] by (simp add: tensor_to_accumulate_sums)
  moreover have "all_reduce ?own peers ! 5 = ?own ! 5 + (\<Sum>p\<leftarrow>peers. p ! 5)"
    using all_reduce_nth [OF l, of 5] by (simp add: tensor_to_accumulate_sums)
  moreover have "?own ! 2 = (\<Sum>rb\<leftarrow>rbs. sum_list (rm_rewards rb))"
    "?own ! 5 = real (\<Sum>rb\<leftarrow>rbs. length (prompt_lengths rb))"
    by (simp_all add: tensor_to_accumulate_sums)
  moreover have "map_of ms ''global_rewards'' =
      Some (all_reduce ?own peers ! 2 / (all_reduce ?own peers ! 5 + 1 / 1000000))"
    using assms(2)
    by (auto simp: compute_global_rollout_metrics_def Let_def split: sum.splits)
  ultimately show ?thesis by (simp only:)
qed

text \<open>
  C3, on a cycle of one worker with one sample whose combined reward is 3, whose
  reward-model reward is 2 and whose constraint reward is 1: the third local sum, the
  one reported as the combined-reward mean, is the sum 2 of the reward-model rewards, and
  the reported \<^verbatim>\<open>global_rewards\<close> is \<open>2 / (1 + 1e-6)\<close>; the sum of the combined rewards
  is 3. Every mean is its sum divided by the sample count plus \<open>1e-6\<close>.
\<close>

theorem global_rewards_sums_rm_rewards:
  "tensor_to_accumulate
     [\<lparr>prompt_tokens = [[11, 12]], prompt_lengths = [2], response_lengths = [5],
       response_tokens = [[11, 12, 13, 14, 15]], rewards = [3], rm_rewards = [2],
       ifeval_rewards = [1], init_policy_kl = [0], baseline = [Some 0]\<rparr>] =
     [3, 2, 2, 2, 1, 1]
   \<and> compute_global_rollout_metrics ids_to_text []
     [\<lparr>prompt_tokens = [[11, 12]], prompt_lengths = [2], response_lengths = [5],
       response_tokens = [[11, 12, 13, 14, 15]], rewards = [3], rm_rewards = [2],
       ifeval_rewards = [1], init_policy_kl = [0], baseline = [Some 0]\<rparr>] =
     Inr ([(''reward'', Num 2), (''rm_reward'', Num 2), (''ifeval_reward'', Num 1),
           (''prompt'', Text (ids_to_text [11, 12])),
           (''response'', Text (ids_to_text [13, 14, 15]))],
          [(''global_response_lengths_mean'', 3 / (1 + 1 / 1000000)),
           (''global_prompt_lengths'', 2 / (1 + 1 / 1000000)),
           (''global_rewards'', 2 / (1 + 1 / 1000000)),
           (''global_rm_rewards'', 2 / (1 + 1 / 1000000)),
           (''global_ifeval_rewards'', 1 / (1 + 1 / 1000000))])"
  by (simp add: compute_global_rollout_metrics_def tensor_to_accumulate_sums all_reduce_def
      py_slice_def slice_bound_def)

text \<open>
  C10, on a cycle of two records, the first with two samples whose first sample has the
  combined reward 3, the reward-model reward 2 and the constraint reward 1, the prompt
  length 2 and the response length 5: the logged example is taken from that sample,
  whatever the other workers contribute to the reduction; it decodes the first two
  tokens as the prompt and the next three as the response, and its \<^verbatim>\<open>reward\<close> entry
  is the reward-model reward 2.
\<close>

theorem table_reward_is_rm_reward:
  "map_sum id fst (compute_global_rollout_metrics ids_to_text peers
     [\<lparr>prompt_tokens = [[11, 12], [11, 12]], prompt_lengths = [2, 2], response_lengths = [5, 4],
       response_tokens = [[11, 12, 13, 14, 15], [11, 12, 16, 17, 0]], rewards = [3, 8],
       rm_rewards = [2, 6], ifeval_rewards = [1, 1], init_policy_kl = [0, 0],
       baseline = [Some 8, Some 3]\<rparr>,
      \<lparr>prompt_tokens = [[21]], prompt_lengths = [1], response_lengths = [2],
       response_tokens = [[21, 22]], rewards = [9], rm_rewards = [9],
       ifeval_rewards = [0], init_policy_kl = [0], baseline = [None]\<rparr>]) =
     Inr [(''reward'', Num 2), (''rm_reward'', Num 2), (''ifeval_reward'', Num 1),
          (''prompt'', Text (ids_to_text [11, 12])),
          (''response'', Text (ids_to_text [13, 14, 15]))]"
  by (simp add: compute_global_rollout_metrics_def Let_def py_slice_def slice_bound_def)

subsection \<open>The order of the external calls\<close>

lemma funpow_append: "((\<lambda>calls. calls @ r) ^^ n) xs = xs @ concat (replicate n r)"
  by (induction n arbitrary: xs) (simp_all add: funpow_Suc_right del: funpow.simps(2))

lemma run_inference_calls_training:
  "run_inference_calls n g False =
     concat (replicate (n * g) [Infer, InferRmCritic, FutureResult, GetInitPolicyLogprobs])"
proof -
  let ?r = "[Infer, InferRmCritic, FutureResult, GetInitPolicyLogprobs]"
  have g: "generation_round = (\<lambda>calls. calls @ ?r)"
    by (rule ext) (simp add: generation_round_def)
  have "(generation_round ^^ g) = (\<lambda>calls. calls @ concat (replicate g ?r))"
    by (rule ext) (simp only: g funpow_append)
  then have "((generation_round ^^ g) ^^ n) [] = concat (replicate n (concat (replicate g ?r)))"
    by (simp only: funpow_append) simp
  also have "\<dots> = concat (replicate (n * g) ?r)"
    by (induction n) (simp_all add: replicate_add)
  finally show ?thesis by (simp add: run_inference_calls_def)
qed

lemma outstanding_append: "outstanding (xs @ ys) = outstanding xs + outstanding ys"
  by (simp add: outstanding_def)

lemma rounds_outstanding:
  fixes m :: nat
  defines "r \<equiv> [Infer, InferRmCritic, FutureResult, GetInitPolicyLogprobs]"
  shows "outstanding (concat (replicate m r)) = 0 \<and>
     (\<forall>k \<le> length (concat (replicate m r)).
        (outstanding (take k (concat (replicate m r))) = 0 \<or>
         outstanding (take k (concat (replicate m r))) = 1) \<and>
        (k < length (concat (replicate m r)) \<and>
         concat (replicate m r) ! k = GetInitPolicyLogprobs \<longrightarrow>
           0 < k \<and> concat (replicate m r) ! (k - 1) = FutureResult \<and>
           outstanding (take k (concat (replicate m r))) = 0))"
proof (induction m)
  case 0
  then show ?case by (simp add: outstanding_def)
next
  case (Suc m)
  let ?t = "concat (replicate m r)"
  have c: "concat (replicate (Suc m) r) = r @ ?t" by simp
  have r0: "outstanding r = 0" by (simp add: r_def outstanding_def)
  have lr: "length r = 4" by (simp add: r_def)
  have A: "outstanding (concat (replicate (Suc m) r)) = 0"
    using Suc r0 by (simp add: outstanding_append)
  have B: "outstanding (take k (concat (replicate (Suc m) r))) = 0 \<or>
         outstanding (take k (concat (replicate (Suc m) r))) = 1"
    if k: "k \<le> length (concat (replicate (Suc m) r))" for k
    proof (cases "k \<le> 4")
      case True
      then consider "k = 0" | "k = 1" | "k = 2" | "k = 3" | "k = 4" by linarith
      then show ?thesis
        by cases (simp_all add: r_def outstanding_def numeral_2_eq_2 numeral_3_eq_3)
    next
      case False
      then have "take k (r @ ?t) = r @ take (k - 4) ?t" using lr by simp
      moreover have "k - 4 \<le> length ?t" using k lr by simp
      ultimately show ?thesis
        using Suc r0 by (simp add: outstanding_append)
    qed
  have C: "0 < k \<and> concat (replicate (Suc m) r) ! (k - 1) = FutureResult \<and>
         outstanding (take k (concat (replicate (Suc m) r))) = 0"
    if g: "k < length (concat (replicate (Suc m) r)) \<and>
         concat (replicate (Suc m) r) ! k = GetInitPolicyLogprobs" for k
    proof (cases "k < 4")
      case True
      then consider "k = 0" | "k = 1" | "k = 2" | "k = 3" by linarith
      then show ?thesis using g
        by cases (simp_all add: r_def outstanding_def numeral_2_eq_2 numeral_3_eq_3)
    next
      case False
      have t: "take k (r @ ?t) = r @ take (k - 4) ?t" using False lr by simp
      have n: "(r @ ?t) ! k = ?t ! (k - 4)" using False lr by (simp add: nth_append)
      from g have "k < length r + length ?t" by simp
      then have kl: "k - 4 < length ?t" "k - 4 \<le> length ?t" using False lr by linarith+
      have tg: "?t ! (k - 4) = GetInitPolicyLogprobs"
      proof -
        from g have "(r @ ?t) ! k = GetInitPolicyLogprobs" by (simp only: c)
        then show ?thesis by (simp only: n)
      qed
      from Suc have "\<forall>j \<le> length ?t. j < length ?t \<and> ?t ! j = GetInitPolicyLogprobs \<longrightarrow>
          0 < j \<and> ?t ! (j - 1) = FutureResult \<and> outstanding (take j ?t) = 0"
        by blast
      with kl tg have ih: "0 < k - 4" "?t ! (k - 4 - 1) = FutureResult"
        "outstanding (take (k - 4) ?t) = 0" by blast+
      have "\<not> k - 1 < length r" using ih(1) lr by linarith
      moreover have "k - 1 - length r = k - 4 - 1" using lr by simp
      ultimately have "(r @ ?t) ! (k - 1) = ?t ! (k - 4 - 1)"
        by (simp only: nth_append if_False)
      then show ?thesis using ih r0 t by (simp add: outstanding_append)
    qed
  show ?case using A B C by blast
qed

text \<open>
  C5, as amended. The training path makes, in every generation round, the calls
  \<^verbatim>\<open>infer\<close>, \<^verbatim>\<open>infer_rm_critic\<close>, \<^verbatim>\<open>future.result()\<close> and \<^verbatim>\<open>get_init_policy_logprobs\<close>
  in this order: at most one reward-critic request is outstanding at any time, and
  whenever the reference log-probabilities are requested the call just before was the
  join and no request is outstanding.
\<close>

theorem run_inference_joins_before_logprobs:
  "run_inference_calls n g False =
     concat (replicate (n * g) [Infer, InferRmCritic, FutureResult, GetInitPolicyLogprobs])
   \<and> (\<forall>k \<le> length (run_inference_calls n g False).
         outstanding (take k (run_inference_calls n g False)) = 0 \<or>
         outstanding (take k (run_inference_calls n g False)) = 1)
   \<and> (\<forall>k < length (run_inference_calls n g False).
         run_inference_calls n g False ! k = GetInitPolicyLogprobs \<longrightarrow>
           0 < k \<and> run_inference_calls n g False ! (k - 1) = FutureResult \<and>
           outstanding (take k (run_inference_calls n g False)) = 0)"
proof -
  let ?t = "concat (replicate (n * g) [Infer, InferRmCritic, FutureResult, GetInitPolicyLogprobs])"
  have e: "run_inference_calls n g False = ?t" by (rule run_inference_calls_training)
  note r = rounds_outstanding [of "n * g"]
  have a: "\<forall>k \<le> length ?t. outstanding (take k ?t) = 0 \<or> outstanding (take k ?t) = 1"
    using r by blast
  have b: "\<forall>k < length ?t. ?t ! k = GetInitPolicyLogprobs \<longrightarrow>
      0 < k \<and> ?t ! (k - 1) = FutureResult \<and> outstanding (take k ?t) = 0"
  proof (intro allI impI)
    fix k assume k: "k < length ?t" and g: "?t ! k = GetInitPolicyLogprobs"
    from k have "k \<le> length ?t" by (rule less_imp_le)
    with r k g show "0 < k \<and> ?t ! (k - 1) = FutureResult \<and> outstanding (take k ?t) = 0"
      by blast
  qed
  show ?thesis unfolding e using a b by (intro conjI refl)
qed

text \<open>One microbatch of two rounds, at the first request of the reference log-probabilities.\<close>

theorem run_inference_joins_before_logprobs_witness:
  "run_inference_calls 1 2 False ! 3 = GetInitPolicyLogprobs
   \<and> run_inference_calls 1 2 False ! 2 = FutureResult
   \<and> outstanding (take 3 (run_inference_calls 1 2 False)) = 0"
proof -
  have t: "run_inference_calls 1 2 False =
      [Infer, InferRmCritic, FutureResult, GetInitPolicyLogprobs,
       Infer, InferRmCritic, FutureResult, GetInitPolicyLogprobs]"
    by (simp add: run_inference_calls_training numeral_2_eq_2)
  have k: "3 < length (run_inference_calls 1 2 False)"
    "run_inference_calls 1 2 False ! 3 = GetInitPolicyLogprobs"
    unfolding t by simp_all
  have "run_inference_calls 1 2 False ! (3 - 1) = FutureResult \<and>
      outstanding (take 3 (run_inference_calls 1 2 False)) = 0"
    using run_inference_joins_before_logprobs [of 1 2] k by blast
  then show ?thesis using k(2) by simp
qed

text \<open>
  C5, as stated, fails: in a round the join is the third call and the request of the
  reference log-probabilities the fourth, made when no request is outstanding.
\<close>

theorem reward_critic_joined_before_logprobs:
  "run_inference_calls 1 1 False = [Infer, InferRmCritic, FutureResult, GetInitPolicyLogprobs]
   \<and> outstanding (take 3 (run_inference_calls 1 1 False)) = 0"
  by (simp add: run_inference_calls_def generation_round_def outstanding_def)

end
